theory Spec2Isabelle
  imports Complex_Main "HOL-Library.Sublist"
begin

section \<open>Data model of \<^verbatim>\<open>ocr_grounder.py\<close>\<close>

text \<open>
  Python \<^verbatim>\<open>int\<close> is \<^typ>\<open>int\<close>, \<^verbatim>\<open>float\<close> is \<^typ>\<open>real\<close> (finite values only:
  a NaN or an infinity among the engine's numbers is outside this model), \<^verbatim>\<open>str\<close> is
  \<^typ>\<open>string\<close>. The dataclass \<^verbatim>\<open>TextLocation\<close> has the fields \<^verbatim>\<open>text, x, y, width,
  height, confidence\<close>; \<^verbatim>\<open>text\<close>, \<^verbatim>\<open>x\<close> and \<^verbatim>\<open>y\<close> carry the prefix \<open>loc_\<close> here
  (\<^verbatim>\<open>text\<close> is a keyword, and \<^verbatim>\<open>x\<close>, \<^verbatim>\<open>y\<close> are also fields of \<^verbatim>\<open>GroundingResult\<close>,
  which carry the prefix \<open>res_\<close>).
\<close>

record TextLocation =
  loc_text :: string
  loc_x :: int
  loc_y :: int
  width :: int
  height :: int
  confidence :: real

record GroundingResult =
  res_x :: int
  res_y :: int
  res_confidence :: real
  text_found :: string

text \<open>
  Exceptions are values. \<open>GroundingError message available_labels\<close> is the class of the
  source. \<open>ValueError\<close> is what \<^verbatim>\<open>min\<close> and \<^verbatim>\<open>max\<close> raise on an empty sequence and
  \<^verbatim>\<open>time.sleep\<close> on a negative duration; \<open>OverflowError\<close> is what \<^verbatim>\<open>time.sleep\<close> raises
  on a duration out of its range and the conversion of a too large \<^verbatim>\<open>int\<close> to a float.
  \<open>ScreenShotError\<close> stands for a failure of the capture collaborator
  (\<^verbatim>\<open>screenshot.capture_desktop\<close>), \<open>ReaderError\<close> for a failure of the recognition
  engine (\<^verbatim>\<open>reader.readtext\<close>) and \<open>FailSafeException\<close> for a failure of the double click
  (\<^verbatim>\<open>mouse_keyboard\<close> switches \<^verbatim>\<open>pyautogui.FAILSAFE\<close> on). Only the first is a
  \<^verbatim>\<open>GroundingError\<close>.
\<close>

datatype exn =
    GroundingError string "string list"
  | ValueError
  | OverflowError
  | ScreenShotError
  | ReaderError
  | FailSafeException

text \<open>\<^verbatim>\<open>GroundingError.__init__\<close>: \<^verbatim>\<open>self.available_labels = available_labels or []\<close>.\<close>

definition GroundingError_init :: "string \<Rightarrow> string list option \<Rightarrow> exn" where
  "GroundingError_init message available_labels =
     GroundingError message
       (case available_labels of
          None \<Rightarrow> []
        | Some ls \<Rightarrow> (if ls \<noteq> [] then ls else []))"

fun is_GroundingError :: "exn \<Rightarrow> bool" where
  "is_GroundingError (GroundingError message ls) = True"
| "is_GroundingError ValueError = False"
| "is_GroundingError OverflowError = False"
| "is_GroundingError ScreenShotError = False"
| "is_GroundingError ReaderError = False"
| "is_GroundingError FailSafeException = False"

subsection \<open>\<^verbatim>\<open>TextLocation.center\<close> and \<^verbatim>\<open>TextLocation.icon_center\<close>\<close>

text \<open>Python's \<^verbatim>\<open>//\<close> on integers rounds towards minus infinity, as \<open>div\<close> on \<^typ>\<open>int\<close> does.\<close>

definition center :: "TextLocation \<Rightarrow> int \<times> int" where
  "center loc = (loc_x loc + width loc div 2, loc_y loc + height loc div 2)"

definition icon_center :: "TextLocation \<Rightarrow> int \<times> int" where
  "icon_center loc = (case center loc of (cx, cy) \<Rightarrow> (cx, cy - 45))"

subsection \<open>\<^verbatim>\<open>OCRGrounder.find_all_text\<close>\<close>

text \<open>
  One reading of the engine is \<^verbatim>\<open>(bbox, text, conf)\<close>, \<^verbatim>\<open>bbox\<close> a list of points.
  \<^verbatim>\<open>int(v)\<close> on a float truncates towards zero. The engine itself
  (\<^verbatim>\<open>self.reader.readtext\<close>) is a parameter, \<open>readtext\<close>, which returns the readings
  of an image or fails; the lazy construction of the reader and the prints are left out.
\<close>

type_synonym reading = "(real \<times> real) list \<times> string \<times> real"

definition py_int :: "real \<Rightarrow> int" where
  "py_int v = (if 0 \<le> v then \<lfloor>v\<rfloor> else \<lceil>v\<rceil>)"

definition py_min :: "real list \<Rightarrow> exn + real" where
  "py_min vs = (case vs of [] \<Rightarrow> Inl ValueError | v # rest \<Rightarrow> Inr (fold min rest v))"

definition py_max :: "real list \<Rightarrow> exn + real" where
  "py_max vs = (case vs of [] \<Rightarrow> Inl ValueError | v # rest \<Rightarrow> Inr (fold max rest v))"

text \<open>The body of the loop (lines 100 to 113): the four extrema in the source's order.\<close>

definition locate :: "reading \<Rightarrow> exn + TextLocation" where
  "locate r =
     (case r of (bbox, txt, conf) \<Rightarrow>
        (case py_min (map fst bbox) of Inl e \<Rightarrow> Inl e | Inr mx1 \<Rightarrow>
        (case py_min (map snd bbox) of Inl e \<Rightarrow> Inl e | Inr my1 \<Rightarrow>
        (case py_max (map fst bbox) of Inl e \<Rightarrow> Inl e | Inr mx2 \<Rightarrow>
        (case py_max (map snd bbox) of Inl e \<Rightarrow> Inl e | Inr my2 \<Rightarrow>
           (let x1 = py_int mx1; y1 = py_int my1; x2 = py_int mx2; y2 = py_int my2
            in Inr \<lparr> loc_text = txt, loc_x = x1, loc_y = y1,
                     width = x2 - x1, height = y2 - y1, confidence = conf \<rparr>))))))"

fun locations :: "reading list \<Rightarrow> exn + TextLocation list" where
  "locations [] = Inr []"
| "locations (r # results) =
     (case locate r of
        Inl e \<Rightarrow> Inl e
      | Inr loc \<Rightarrow> (case locations results of Inl e \<Rightarrow> Inl e | Inr locs \<Rightarrow> Inr (loc # locs)))"

definition find_all_text :: "('img \<Rightarrow> exn + reading list) \<Rightarrow> 'img \<Rightarrow> exn + TextLocation list" where
  "find_all_text readtext image_path =
     (case readtext image_path of Inl e \<Rightarrow> Inl e | Inr results \<Rightarrow> locations results)"

subsection \<open>\<^verbatim>\<open>OCRGrounder.ground\<close>\<close>

text \<open>
  \<^verbatim>\<open>str.lower\<close>, for texts of ASCII characters: the letters \<^verbatim>\<open>A\<close> to \<^verbatim>\<open>Z\<close> (codes 65 to
  90) move to \<^verbatim>\<open>a\<close> to \<^verbatim>\<open>z\<close>, every other character stays. The general theorems below
  use \<open>lower\<close> as a function on strings and, for the empty target, that only the
  empty string is lower-cased to the empty string; only the concrete examples evaluate
  it.
\<close>

definition lower_char :: "char \<Rightarrow> char" where
  "lower_char c =
     (let n = of_char c :: nat in if 65 \<le> n \<and> n \<le> 90 then char_of (n + 32) else c)"

definition lower :: "string \<Rightarrow> string" where
  "lower s = map lower_char s"

text \<open>
  The two loops of lines 146 to 156. Python's \<^verbatim>\<open>a in b\<close> on strings is
  \<^term>\<open>sublist a b\<close> (a contiguous run of \<open>b\<close>); a loop that keeps the first hit and
  breaks is \<^const>\<open>find\<close>. A \<^verbatim>\<open>TextLocation\<close> is always truthy, so \<^verbatim>\<open>not matched\<close>
  holds exactly when nothing was found.
\<close>

definition exact_match :: "string \<Rightarrow> TextLocation list \<Rightarrow> TextLocation option" where
  "exact_match target_lower all_text =
     find (\<lambda>loc. lower (loc_text loc) = target_lower) all_text"

definition partial_hit :: "string \<Rightarrow> TextLocation \<Rightarrow> bool" where
  "partial_hit target_lower loc \<longleftrightarrow>
     sublist target_lower (lower (loc_text loc)) \<or> sublist (lower (loc_text loc)) target_lower"

definition partial_match :: "string \<Rightarrow> TextLocation list \<Rightarrow> TextLocation option" where
  "partial_match target_lower all_text = find (partial_hit target_lower) all_text"

definition match_label :: "TextLocation list \<Rightarrow> string \<Rightarrow> TextLocation option" where
  "match_label all_text target =
     (let target_lower = lower target
      in case exact_match target_lower all_text of
           Some loc \<Rightarrow> Some loc
         | None \<Rightarrow> partial_match target_lower all_text)"

definition not_found_message :: "string \<Rightarrow> string" where
  "not_found_message target = [CHR 0x27] @ target @ [CHR 0x27] @ '' not found in detected text''"

definition result_of :: "TextLocation \<Rightarrow> GroundingResult" where
  "result_of matched =
     (case icon_center matched of (icon_x, icon_y) \<Rightarrow>
        \<lparr> res_x = icon_x, res_y = icon_y,
          res_confidence = confidence matched, text_found = loc_text matched \<rparr>)"

text \<open>Lines 135 to 171: \<^verbatim>\<open>ground\<close> after detection.\<close>

definition ground_located :: "TextLocation list \<Rightarrow> string \<Rightarrow> exn + GroundingResult" where
  "ground_located all_text target =
     (if all_text = [] then Inl (GroundingError_init ''No text found in screenshot'' (Some []))
      else
        (let labels = map loc_text all_text
         in case match_label all_text target of
              None \<Rightarrow> Inl (GroundingError_init (not_found_message target) (Some labels))
            | Some matched \<Rightarrow> Inr (result_of matched)))"

definition ground :: "('img \<Rightarrow> exn + reading list) \<Rightarrow> 'img \<Rightarrow> string \<Rightarrow> exn + GroundingResult" where
  "ground readtext image_path target =
     (case find_all_text readtext image_path of
        Inl e \<Rightarrow> Inl e
      | Inr all_text \<Rightarrow> ground_located all_text target)"

definition ground_icon :: "('img \<Rightarrow> exn + reading list) \<Rightarrow> 'img \<Rightarrow> string \<Rightarrow> exn + GroundingResult" where
  "ground_icon readtext image_path target = ground readtext image_path target"

section \<open>The retry loop of \<^verbatim>\<open>notepad.py\<close>\<close>

text \<open>
  The loop of \<^verbatim>\<open>launch_notepad_from_desktop\<close> (lines 43 to 76; the two calls before
  it, lines 36 to 41, show the desktop and do not touch the loop's variables). What a
  run does to the outside is a list of events, in order:
  \<^item> \<open>Capture i\<close>: \<^verbatim>\<open>capture_desktop\<close> is called for the attempt with zero-based index \<open>i\<close>
    (the call may raise);
  \<^item> \<open>Sleep t\<close>: a call \<^verbatim>\<open>time.sleep(t)\<close> has returned;
  \<^item> \<open>DoubleClick x y\<close>: the double click at \<open>(x, y)\<close> has returned.

  The collaborators are parameters: \<open>capture_desktop\<close> gives the outcome of the capture
  made during each attempt, \<open>readtext\<close> what the engine reads from an image,
  \<open>double_click\<close> the exception a double click raises, if any. Of \<^verbatim>\<open>Config\<close>, the two
  retry settings are the fields the loop reads; \<open>retry_delay\<close> is a finite float.
\<close>

datatype event =
    Capture nat
  | Sleep real
  | DoubleClick int int

record Config =
  max_retries :: int
  retry_delay :: real

record 'img desktop =
  capture_desktop :: "nat \<Rightarrow> exn + 'img"
  readtext :: "'img \<Rightarrow> exn + reading list"
  double_click :: "int \<Rightarrow> int \<Rightarrow> exn option"
  sleep_min :: real
  sleep_max :: real

text \<open>
  \<^verbatim>\<open>time.sleep(secs)\<close> converts the duration to a count of nanoseconds in a 64-bit
  integer and raises \<^verbatim>\<open>OverflowError\<close> when it does not fit, then raises \<^verbatim>\<open>ValueError\<close>
  when it is negative. \<open>sleep_min\<close> (negative) and \<open>sleep_max\<close> (positive) are the least
  and the greatest duration that fit on the platform, about nine thousand million
  seconds either way, far inside the range of the floats.
\<close>

definition time_sleep :: "'img desktop \<Rightarrow> real \<Rightarrow> exn option" where
  "time_sleep env secs =
     (if secs < 0 then Some (if secs < sleep_min env then OverflowError else ValueError)
      else if sleep_max env < secs then Some OverflowError
      else None)"

text \<open>\<^verbatim>\<open>wait_for_notepad\<close>: \<^verbatim>\<open>time.sleep(min(timeout, 2.0))\<close>, then \<^verbatim>\<open>True\<close>.\<close>

definition wait_for_notepad :: "'img desktop \<Rightarrow> real \<Rightarrow> (exn + bool) \<times> event list" where
  "wait_for_notepad env timeout =
     (case time_sleep env (min timeout 2) of
        Some e \<Rightarrow> (Inl e, [])
      | None \<Rightarrow> (Inr True, [Sleep (min timeout 2)]))"

text \<open>Lines 48 to 55: the capture and the grounding of one attempt.\<close>

definition try_body :: "'img desktop \<Rightarrow> nat \<Rightarrow> exn + GroundingResult" where
  "try_body env attempt =
     (case capture_desktop env attempt of
        Inl e \<Rightarrow> Inl e
      | Inr screenshot_path \<Rightarrow> ground_icon (readtext env) screenshot_path ''Notepad'')"

text \<open>
  Lines 46 to 64, the whole \<^verbatim>\<open>try\<close> block: after the grounding, the double click and
  \<^verbatim>\<open>wait_for_notepad()\<close> with its default timeout of 5 seconds. The result is \<open>Inr ()\<close>
  when the block reaches \<^verbatim>\<open>return\<close> and the exception that leaves it otherwise, with
  the events up to there.
\<close>

definition try_block :: "'img desktop \<Rightarrow> nat \<Rightarrow> (exn + unit) \<times> event list" where
  "try_block env attempt =
     (case try_body env attempt of
        Inl e \<Rightarrow> (Inl e, [Capture attempt])
      | Inr result \<Rightarrow>
          (case double_click env (res_x result) (res_y result) of
             Some e \<Rightarrow> (Inl e, [Capture attempt])
           | None \<Rightarrow>
               (case wait_for_notepad env 5 of
                  (Inl e, evs) \<Rightarrow>
                    (Inl e, Capture attempt # DoubleClick (res_x result) (res_y result) # evs)
                | (Inr launched, evs) \<Rightarrow>
                    (Inr (), Capture attempt # DoubleClick (res_x result) (res_y result) # evs))))"

text \<open>
  Line 68: \<^verbatim>\<open>config.retry_delay * (2 ** attempt)\<close>. The power is an \<^verbatim>\<open>int\<close>; the
  product converts it to a float, which raises \<^verbatim>\<open>OverflowError\<close> from \<^verbatim>\<open>2 ** 1024\<close> on.
  Below that the product of a finite float and a power of two is exact, unless it
  leaves the range of the floats: Python then has an infinity, which \<^verbatim>\<open>time.sleep\<close>
  refuses as it refuses the real product here, which lies beyond \<open>sleep_min\<close> or
  \<open>sleep_max\<close>.
\<close>

definition backoff_wait :: "Config \<Rightarrow> nat \<Rightarrow> exn + real" where
  "backoff_wait config attempt =
     (if 1024 \<le> attempt then Inl OverflowError
      else Inr (retry_delay config * 2 ^ attempt))"

text \<open>
  Lines 45 to 76, over the attempts still to run (\<^verbatim>\<open>range(config.max_retries)\<close> at the
  start). \<^verbatim>\<open>except GroundingError\<close> handles a \<^verbatim>\<open>GroundingError\<close> only; any other
  exception leaves the function, and so does an exception raised inside the handler
  (by line 68 or by \<^verbatim>\<open>time.sleep\<close>). The result is what is returned or raised, with
  the events of the run.
\<close>

fun retry_loop :: "Config \<Rightarrow> 'img desktop \<Rightarrow> nat list \<Rightarrow> exn option \<Rightarrow> (exn + unit) \<times> event list" where
  "retry_loop config env [] last_error =
     (Inl (case last_error of
             Some e \<Rightarrow> e
           | None \<Rightarrow> GroundingError_init ''Failed to launch Notepad after all retries'' None),
      [])"
| "retry_loop config env (attempt # rest) last_error =
     (case try_block env attempt of
        (Inr returned, evs) \<Rightarrow> (Inr (), evs)
      | (Inl e, evs) \<Rightarrow>
          (if is_GroundingError e then
             (case backoff_wait config attempt of
                Inl raised \<Rightarrow> (Inl raised, evs)
              | Inr wait_time \<Rightarrow>
                  (if int attempt < max_retries config - 1 then
                     (case time_sleep env wait_time of
                        Some raised \<Rightarrow> (Inl raised, evs)
                      | None \<Rightarrow>
                          (case retry_loop config env rest (Some e) of
                             (outcome, events) \<Rightarrow> (outcome, evs @ Sleep wait_time # events)))
                   else
                     (case retry_loop config env rest (Some e) of
                        (outcome, events) \<Rightarrow> (outcome, evs @ events))))
           else (Inl e, evs)))"

definition acquisition_loop :: "Config \<Rightarrow> 'img desktop \<Rightarrow> (exn + unit) \<times> event list" where
  "acquisition_loop config env = retry_loop config env [0..<nat (max_retries config)] None"

text \<open>The events of a run that are sleeps, and those that are captures.\<close>

fun sleeps :: "event list \<Rightarrow> real list" where
  "sleeps [] = []"
| "sleeps (Sleep t # es) = t # sleeps es"
| "sleeps (e # es) = sleeps es"

fun captures :: "event list \<Rightarrow> nat list" where
  "captures [] = []"
| "captures (Capture i # es) = i # captures es"
| "captures (e # es) = captures es"

section \<open>Example inputs\<close>

text \<open>A fragment 50 wide and 20 high with a given text, left and top, for the closed instances below.\<close>

definition label_at :: "string \<Rightarrow> int \<Rightarrow> int \<Rightarrow> TextLocation" where
  "label_at s l t =
     \<lparr> loc_text = s, loc_x = l, loc_y = t, width = 50, height = 20, confidence = 4 / 5 \<rparr>"

text \<open>An engine reading with a given text, its polygon the box 50 wide and 20 high at (100, 200).\<close>

definition reading_at :: "string \<Rightarrow> reading" where
  "reading_at s = ([(100, 200), (150, 200), (150, 220), (100, 220)], s, 4 / 5)"

text \<open>
  Desktops whose image handle is the index of the attempt that took the screenshot,
  whose double click returns and whose \<^verbatim>\<open>time.sleep\<close> takes up to 9223372036 seconds:
  one that never shows a Notepad label, one that shows it from the third attempt on,
  and two whose capture fails once (at the first attempt, at the second attempt).
\<close>

definition never_notepad :: "nat desktop" where
  "never_notepad =
     \<lparr> capture_desktop = (\<lambda>i. Inr i),
       readtext = (\<lambda>i. Inr [reading_at (if i = 0 then ''Chrome''
                                         else if i = 1 then ''Recycle Bin'' else ''Trash'')]),
       double_click = (\<lambda>x y. None), sleep_min = - 9223372036, sleep_max = 9223372036 \<rparr>"


definition capture_fails_first :: "nat desktop" where
  "capture_fails_first =
     \<lparr> capture_desktop = (\<lambda>i. if i = 0 then Inl ScreenShotError else Inr i),
       readtext = (\<lambda>i. Inr [reading_at ''Notepad'']),
       double_click = (\<lambda>x y. None), sleep_min = - 9223372036, sleep_max = 9223372036 \<rparr>"

definition capture_fails_second :: "nat desktop" where
  "capture_fails_second =
     \<lparr> capture_desktop = (\<lambda>i. if i = 1 then Inl ScreenShotError else Inr i),
       readtext = (\<lambda>i. Inr [reading_at ''Chrome'']),
       double_click = (\<lambda>x y. None), sleep_min = - 9223372036, sleep_max = 9223372036 \<rparr>"

section \<open>The icon anchor\<close>

text \<open>
  C4. For every fragment, \<open>icon_center\<close> is \<open>(x + width // 2, (y + height // 2) - 45)\<close>;
  the fragment with left 100, top 200, width 50 and height 20 gives \<open>(125, 165)\<close>. The
  function is total: a fragment at the top edge of the image gives a coordinate above
  the image (a negative \<open>y\<close>), not a failure.
\<close>

theorem icon_center_value:
  "icon_center loc = (loc_x loc + width loc div 2, (loc_y loc + height loc div 2) - 45)
   \<and> icon_center \<lparr> loc_text = t, loc_x = 100, loc_y = 200, width = 50, height = 20,
                    confidence = c \<rparr> = (125, 165)
   \<and> icon_center \<lparr> loc_text = t, loc_x = 0, loc_y = 0, width = 7, height = 10,
                    confidence = c \<rparr> = (3, - 40)"
  by (simp add: icon_center_def center_def)

section \<open>The matching phase of \<^verbatim>\<open>ground\<close>\<close>

lemma lower_examples:
  "lower ''Notepad'' = ''notepad''"
  "lower ''NOTEPAD'' = ''notepad''"
  "lower ''My Notepad++'' = ''my notepad++''"
  "lower ''Note'' = ''note''"
  "lower ''Recycle Bin'' = ''recycle bin''"
  "lower ''Chrome'' = ''chrome''"
  "lower ''Trash'' = ''trash''"
  by code_simp+

lemma lower_Nil [simp]: "lower [] = []"
  by (simp add: lower_def)

lemma lower_eq_Nil [simp]: "lower s = [] \<longleftrightarrow> s = []"
  by (simp add: lower_def)

lemma exact_match_Some:
  "\<exists>l\<in>set frags. lower (loc_text l) = t \<Longrightarrow> \<exists>m. exact_match t frags = Some m"
  unfolding exact_match_def
  by (induction frags) auto

lemma exact_match_None:
  "(\<forall>l\<in>set frags. lower (loc_text l) \<noteq> t) \<Longrightarrow> exact_match t frags = None"
  unfolding exact_match_def by (simp add: find_None_iff)

lemma match_label_no_exact:
  "(\<forall>l\<in>set frags. lower (loc_text l) \<noteq> lower target) \<Longrightarrow>
   match_label frags target = find (partial_hit (lower target)) frags"
  by (simp add: match_label_def exact_match_None partial_match_def)

text \<open>
  C1. If some fragment's lower-cased text equals the lower-cased target, the matching
  phase returns the first such fragment in detector order, and \<^verbatim>\<open>ground\<close> returns its
  anchor, whatever the substring test says about the other fragments. In the instance,
  a fragment that only contains the target comes first and the exact match second: the
  substring loop alone would pick the first, the matching phase picks the second.
\<close>

theorem exact_match_precedence:
  assumes "\<exists>l\<in>set frags. lower (loc_text l) = lower target"
  shows "\<exists>i<length frags.
           lower (loc_text (frags ! i)) = lower target
         \<and> (\<forall>j<i. lower (loc_text (frags ! j)) \<noteq> lower target)
         \<and> match_label frags target = Some (frags ! i)
         \<and> ground_located frags target = Inr (result_of (frags ! i))"
proof -
  from assms obtain m where m: "exact_match (lower target) frags = Some m"
    using exact_match_Some by blast
  then obtain i where i: "i < length frags" "frags ! i = m"
      "lower (loc_text m) = lower target" "\<forall>j<i. lower (loc_text (frags ! j)) \<noteq> lower target"
    unfolding exact_match_def find_Some_iff by blast
  from i(1) have ne: "frags \<noteq> []" by auto
  have ml: "match_label frags target = Some m"
    using m by (simp add: match_label_def)
  have "ground_located frags target = Inr (result_of m)"
    using ne ml by (simp add: ground_located_def)
  with i ml show ?thesis by blast
qed

theorem exact_match_precedence_witness:
  "(\<exists>l\<in>set [label_at ''My Notepad++'' 10 300, label_at ''NOTEPAD'' 100 200].
       lower (loc_text l) = lower ''Notepad'')
   \<and> (\<exists>i<length [label_at ''My Notepad++'' 10 300, label_at ''NOTEPAD'' 100 200].
           lower (loc_text ([label_at ''My Notepad++'' 10 300, label_at ''NOTEPAD'' 100 200] ! i))
             = lower ''Notepad''
         \<and> (\<forall>j<i. lower (loc_text ([label_at ''My Notepad++'' 10 300, label_at ''NOTEPAD'' 100 200] ! j))
                     \<noteq> lower ''Notepad'')
         \<and> match_label [label_at ''My Notepad++'' 10 300, label_at ''NOTEPAD'' 100 200] ''Notepad''
             = Some ([label_at ''My Notepad++'' 10 300, label_at ''NOTEPAD'' 100 200] ! i)
         \<and> ground_located [label_at ''My Notepad++'' 10 300, label_at ''NOTEPAD'' 100 200] ''Notepad''
             = Inr (result_of ([label_at ''My Notepad++'' 10 300, label_at ''NOTEPAD'' 100 200] ! i)))
   \<and> partial_match (lower ''Notepad'') [label_at ''My Notepad++'' 10 300, label_at ''NOTEPAD'' 100 200]
       = Some (label_at ''My Notepad++'' 10 300)
   \<and> ground_located [label_at ''My Notepad++'' 10 300, label_at ''NOTEPAD'' 100 200] ''Notepad''
       = Inr \<lparr> res_x = 125, res_y = 165, res_confidence = 4 / 5, text_found = ''NOTEPAD'' \<rparr>"
  (is "?H \<and> ?C \<and> ?P \<and> ?G")
proof -
  have h: ?H by (simp add: label_at_def lower_examples)
  have c: ?C by (rule exact_match_precedence [OF h])
  have p: ?P
    by (simp add: partial_match_def partial_hit_def label_at_def lower_examples sublist_Cons_right)
  have g: ?G
    by (simp add: ground_located_def match_label_def exact_match_def label_at_def lower_examples
        result_of_def icon_center_def center_def)
  show ?thesis by (intro conjI) (rule h c p g)+
qed

text \<open>
  C2. When no fragment is an exact match, the matching phase returns \<open>m\<close> exactly when
  \<open>m\<close> is the first fragment in detector order whose lower-cased text contains the
  lower-cased target or is contained in it. Target \<^verbatim>\<open>Note\<close> matches a fragment
  \<^verbatim>\<open>Notepad\<close>, and target \<^verbatim>\<open>Notepad\<close> matches a fragment \<^verbatim>\<open>Note\<close>, whatever the
  fragment's other fields.
\<close>

theorem substring_match_first:
  "((\<forall>l\<in>set frags. lower (loc_text l) \<noteq> lower target) \<longrightarrow>
      (match_label frags target = Some m \<longleftrightarrow>
         (\<exists>i<length frags. frags ! i = m
            \<and> (sublist (lower target) (lower (loc_text m)) \<or> sublist (lower (loc_text m)) (lower target))
            \<and> (\<forall>j<i. \<not> sublist (lower target) (lower (loc_text (frags ! j)))
                     \<and> \<not> sublist (lower (loc_text (frags ! j))) (lower target)))))
   \<and> match_label [a\<lparr>loc_text := ''Notepad''\<rparr>] ''Note'' = Some (a\<lparr>loc_text := ''Notepad''\<rparr>)
   \<and> ground_located [a\<lparr>loc_text := ''Notepad''\<rparr>] ''Note'' = Inr (result_of (a\<lparr>loc_text := ''Notepad''\<rparr>))
   \<and> match_label [b\<lparr>loc_text := ''Note''\<rparr>] ''Notepad'' = Some (b\<lparr>loc_text := ''Note''\<rparr>)
   \<and> ground_located [b\<lparr>loc_text := ''Note''\<rparr>] ''Notepad'' = Inr (result_of (b\<lparr>loc_text := ''Note''\<rparr>))"
  (is "?A \<and> ?B \<and> ?C \<and> ?D \<and> ?E")
proof -
  have A: ?A
    by (auto simp: match_label_no_exact find_Some_iff partial_hit_def)
  have n1: "lower ''Notepad'' \<noteq> lower ''Note''" by (simp add: lower_examples)
  have s1: "sublist (lower ''Note'') (lower ''Notepad'')"
    by (simp add: lower_examples)
  have B: ?B
    using n1 s1 by (simp add: match_label_def exact_match_def partial_match_def partial_hit_def)
  have D: ?D
    using n1 s1 by (simp add: match_label_def exact_match_def partial_match_def partial_hit_def)
  have C: ?C using B by (simp add: ground_located_def)
  have E: ?E using D by (simp add: ground_located_def)
  show ?thesis by (intro conjI) (rule A B C D E)+
qed

theorem substring_match_first_witness:
  "\<not> (\<exists>l\<in>set [label_at ''Chrome'' 10 300, label_at ''My Notepad++'' 100 200, label_at ''Note'' 200 200].
         lower (loc_text l) = lower ''Notepad'')
   \<and> match_label [label_at ''Chrome'' 10 300, label_at ''My Notepad++'' 100 200, label_at ''Note'' 200 200]
        ''Notepad'' = Some (label_at ''My Notepad++'' 100 200)
   \<and> (\<exists>i<length [label_at ''Chrome'' 10 300, label_at ''My Notepad++'' 100 200, label_at ''Note'' 200 200].
         [label_at ''Chrome'' 10 300, label_at ''My Notepad++'' 100 200, label_at ''Note'' 200 200] ! i
           = label_at ''My Notepad++'' 100 200
       \<and> (\<forall>j<i. \<not> sublist (lower ''Notepad'')
                       (lower (loc_text ([label_at ''Chrome'' 10 300, label_at ''My Notepad++'' 100 200,
                                          label_at ''Note'' 200 200] ! j)))))"
  (is "?H \<and> ?M \<and> ?I")
proof -
  have h: ?H by (simp add: label_at_def lower_examples)
  have m: ?M
    by (simp add: match_label_def exact_match_def partial_match_def partial_hit_def label_at_def
        lower_examples sublist_Cons_right)
  from h have h':
    "\<forall>l\<in>set [label_at ''Chrome'' 10 300, label_at ''My Notepad++'' 100 200, label_at ''Note'' 200 200].
       lower (loc_text l) \<noteq> lower ''Notepad''"
    by blast
  from substring_match_first
    [of "[label_at ''Chrome'' 10 300, label_at ''My Notepad++'' 100 200, label_at ''Note'' 200 200]"
        "''Notepad''" "label_at ''My Notepad++'' 100 200"]
    h' m
  have i: ?I by blast
  show ?thesis by (intro conjI) (rule h m i)+
qed

section \<open>\<^verbatim>\<open>ground\<close>: failures and the empty target\<close>

text \<open>
  C3. When detection yields a non-empty fragment list and no fragment is an exact or a
  substring match, \<^verbatim>\<open>ground\<close> raises a \<^verbatim>\<open>GroundingError\<close> whose \<^verbatim>\<open>available_labels\<close>
  is the list of all fragment texts in detector order.
\<close>

theorem no_match_labels:
  assumes "find_all_text rt image_path = Inr frags"
    and "frags \<noteq> []"
    and "\<forall>l\<in>set frags. lower (loc_text l) \<noteq> lower target"
    and "\<forall>l\<in>set frags. \<not> sublist (lower target) (lower (loc_text l))
                        \<and> \<not> sublist (lower (loc_text l)) (lower target)"
  shows "ground rt image_path target
           = Inl (GroundingError (not_found_message target) (map loc_text frags))"
proof -
  have "find (partial_hit (lower target)) frags = None"
    using assms(4) by (simp add: find_None_iff partial_hit_def)
  then have "match_label frags target = None"
    using assms(3) by (simp add: match_label_no_exact)
  then have "ground_located frags target
               = Inl (GroundingError (not_found_message target) (map loc_text frags))"
    using assms(2) by (simp add: ground_located_def GroundingError_init_def)
  then show ?thesis
    using assms(1) by (simp add: ground_def)
qed

theorem no_match_labels_witness:
  "find_all_text (\<lambda>p. Inr [([(10, 300), (60, 300), (60, 320), (10, 320)], ''Recycle Bin'', 4 / 5),
                           ([(100, 200), (150, 200), (150, 220), (100, 220)], ''Chrome'', 4 / 5)])
     ''desktop.png''
     = Inr [label_at ''Recycle Bin'' 10 300, label_at ''Chrome'' 100 200]
   \<and> ground (\<lambda>p. Inr [([(10, 300), (60, 300), (60, 320), (10, 320)], ''Recycle Bin'', 4 / 5),
                       ([(100, 200), (150, 200), (150, 220), (100, 220)], ''Chrome'', 4 / 5)])
       ''desktop.png'' ''Notepad''
     = Inl (GroundingError (not_found_message ''Notepad'') [''Recycle Bin'', ''Chrome''])"
  (is "?F \<and> ?G")
proof -
  have f: ?F
    by (simp add: find_all_text_def locate_def py_min_def py_max_def py_int_def label_at_def)
  have ne: "[label_at ''Recycle Bin'' 10 300, label_at ''Chrome'' 100 200] \<noteq> []" by simp
  have h1: "\<forall>l\<in>set [label_at ''Recycle Bin'' 10 300, label_at ''Chrome'' 100 200].
              lower (loc_text l) \<noteq> lower ''Notepad''"
    by (simp add: label_at_def lower_examples)
  have h2: "\<forall>l\<in>set [label_at ''Recycle Bin'' 10 300, label_at ''Chrome'' 100 200].
              \<not> sublist (lower ''Notepad'') (lower (loc_text l))
            \<and> \<not> sublist (lower (loc_text l)) (lower ''Notepad'')"
    by (simp add: label_at_def lower_examples sublist_Cons_right)
  have g: ?G
    using no_match_labels [OF f ne h1 h2] by (simp add: label_at_def)
  show ?thesis by (intro conjI) (rule f g)+
qed

text \<open>
  C7. When detection yields no fragment, \<^verbatim>\<open>ground\<close> raises the \<^verbatim>\<open>GroundingError\<close> of
  line 136, with an empty \<^verbatim>\<open>available_labels\<close> and the message of the empty scene. It is
  not the error of the matching phase (line 159), whose message quotes the target.
\<close>

theorem empty_scene:
  assumes "find_all_text rt image_path = Inr []"
  shows "ground rt image_path target = Inl (GroundingError ''No text found in screenshot'' [])
       \<and> ground rt image_path target \<noteq> Inl (GroundingError (not_found_message target) [])"
  using assms by (simp add: ground_def ground_located_def GroundingError_init_def not_found_message_def)

theorem empty_scene_witness:
  "find_all_text (\<lambda>p. Inr []) ''desktop.png'' = Inr []
   \<and> ground (\<lambda>p. Inr []) ''desktop.png'' ''Notepad''
       = Inl (GroundingError ''No text found in screenshot'' [])"
  (is "?F \<and> ?G")
proof -
  have f: ?F by (simp add: find_all_text_def)
  have g: ?G using empty_scene [OF f, of "''Notepad''"] by blast
  show ?thesis by (intro conjI) (rule f g)+
qed

text \<open>
  C10. With the empty string as target and a non-empty fragment list, \<^verbatim>\<open>ground\<close>
  succeeds. It returns the anchor of the first fragment whose text is empty when there
  is one (the exact match), and the anchor of the first fragment otherwise (the empty
  string is contained in every text).
\<close>

theorem empty_target:
  "ground_located (f # rest) ''''
     = Inr (result_of (case find (\<lambda>l. loc_text l = '''') (f # rest) of
                         Some m \<Rightarrow> m
                       | None \<Rightarrow> f))"
proof (cases "find (\<lambda>l. loc_text l = '''') (f # rest)")
  case None
  then have "exact_match [] (f # rest) = None"
    by (simp add: exact_match_def)
  then have "match_label (f # rest) '''' = Some f"
    by (simp add: match_label_def partial_match_def partial_hit_def)
  with None show ?thesis
    by (simp add: ground_located_def)
next
  case (Some m)
  then have "exact_match [] (f # rest) = Some m"
    by (simp add: exact_match_def)
  then have "match_label (f # rest) '''' = Some m"
    by (simp add: match_label_def)
  with Some show ?thesis
    by (simp add: ground_located_def)
qed

theorem empty_target_counterexample:
  "ground_located [label_at ''Chrome'' 10 300, label_at '''' 100 200] ''''
     = Inr \<lparr> res_x = 125, res_y = 165, res_confidence = 4 / 5, text_found = '''' \<rparr>
   \<and> result_of (label_at ''Chrome'' 10 300)
     = \<lparr> res_x = 35, res_y = 265, res_confidence = 4 / 5, text_found = ''Chrome'' \<rparr>
   \<and> ground_located [label_at ''Chrome'' 10 300, label_at '''' 100 200] ''''
     \<noteq> Inr (result_of (label_at ''Chrome'' 10 300))"
  by (simp add: ground_located_def match_label_def exact_match_def label_at_def
      result_of_def icon_center_def center_def)

section \<open>Detection: polygons to axis-aligned boxes\<close>
















section \<open>The retry loop\<close>

lemma time_sleep_returns:
  "0 \<le> secs \<Longrightarrow> secs \<le> sleep_max env \<Longrightarrow> time_sleep env secs = None"
  by (simp add: time_sleep_def)

lemma try_block_raises:
  "try_body env a = Inl e \<Longrightarrow> try_block env a = (Inl e, [Capture a])"
  by (simp add: try_block_def)


lemma retry_loop_caught:
  assumes "try_body env a = Inl e" and "is_GroundingError e"
    and "a < 1024"
    and "0 \<le> retry_delay config * 2 ^ a"
    and "retry_delay config * 2 ^ a \<le> sleep_max env"
    and "int a < max_retries config - 1"
  shows "retry_loop config env (a # rest) le
           = (fst (retry_loop config env rest (Some e)),
              Capture a # Sleep (retry_delay config * 2 ^ a)
              # snd (retry_loop config env rest (Some e)))"
  using assms
  by (simp add: try_block_raises backoff_wait_def time_sleep_returns split: prod.splits)

lemma retry_loop_caught_last:
  assumes "try_body env a = Inl e" and "is_GroundingError e"
    and "a < 1024"
    and "\<not> int a < max_retries config - 1"
  shows "retry_loop config env [a] le = (Inl e, [Capture a])"
  using assms
  by (simp add: try_block_raises backoff_wait_def)

lemma sleeps_backoff:
  "sleeps (concat (map (\<lambda>j. [Capture j, Sleep (f j)]) js) @ evs) = map f js @ sleeps evs"
  by (induction js) simp_all

lemma captures_backoff:
  "captures (concat (map (\<lambda>j. [Capture j, Sleep (f j)]) js) @ evs) = js @ captures evs"
  by (induction js) simp_all

lemma try_body_label:
  assumes "capture_desktop env a = Inr p"
    and "readtext env p = Inr [reading_at s]"
  shows "try_body env a = ground_located [label_at s 100 200] ''Notepad''"
  using assms
  by (simp add: try_body_def ground_icon_def ground_def find_all_text_def locate_def
      reading_at_def label_at_def py_min_def py_max_def py_int_def)

lemma ground_located_examples:
  "ground_located [label_at ''Chrome'' 100 200] ''Notepad''
     = Inl (GroundingError (not_found_message ''Notepad'') [''Chrome''])"
  "ground_located [label_at ''Recycle Bin'' 100 200] ''Notepad''
     = Inl (GroundingError (not_found_message ''Notepad'') [''Recycle Bin''])"
  "ground_located [label_at ''Trash'' 100 200] ''Notepad''
     = Inl (GroundingError (not_found_message ''Notepad'') [''Trash''])"
  "ground_located [label_at ''Notepad'' 100 200] ''Notepad''
     = Inr \<lparr> res_x = 125, res_y = 165, res_confidence = 4 / 5, text_found = ''Notepad'' \<rparr>"
  by (simp_all add: ground_located_def match_label_def exact_match_def partial_match_def
      partial_hit_def label_at_def lower_examples sublist_Cons_right GroundingError_init_def
      result_of_def icon_center_def center_def)

lemma never_notepad_attempts:
  "try_body never_notepad 0 = Inl (GroundingError (not_found_message ''Notepad'') [''Chrome''])"
  "try_body never_notepad 1 = Inl (GroundingError (not_found_message ''Notepad'') [''Recycle Bin''])"
  "try_body never_notepad 2 = Inl (GroundingError (not_found_message ''Notepad'') [''Trash''])"
  by (simp_all add: try_body_label [where p = 0 and s = "''Chrome''"]
      try_body_label [where p = 1 and s = "''Recycle Bin''"]
      try_body_label [where p = 2 and s = "''Trash''"]
      never_notepad_def ground_located_examples)

lemma try_block_caught_events:
  assumes "fst (try_block env a) = Inl e" and "is_GroundingError e"
  shows "try_block env a = (Inl e, [Capture a])"
proof (cases "try_body env a")
  case (Inl e')
  with assms(1) show ?thesis by (simp add: try_block_def)
next
  case (Inr r)
  show ?thesis
  proof (cases "double_click env (res_x r) (res_y r)")
    case (Some e')
    with Inr assms(1) show ?thesis by (simp add: try_block_def)
  next
    case None
    show ?thesis
    proof (cases "time_sleep env 2")
      case (Some raised)
      then have "\<not> is_GroundingError raised"
        by (auto simp: time_sleep_def split: if_splits)
      moreover have "fst (try_block env a) = Inl raised"
        using Inr None Some by (simp add: try_block_def wait_for_notepad_def)
      ultimately show ?thesis using assms by simp
    next
      case None': None
      have "fst (try_block env a) = Inr ()"
        using Inr None None' by (simp add: try_block_def wait_for_notepad_def)
      with assms(1) show ?thesis by simp
    qed
  qed
qed


lemma try_block_captures: "Capture k \<in> set (snd (try_block env a)) \<Longrightarrow> k = a"
  by (auto simp: try_block_def wait_for_notepad_def split: sum.splits option.splits)

lemma retry_loop_shape:
  assumes "i < nat (max_retries config)"
  shows "\<exists>k. i \<le> k \<and> int k < max_retries config
          \<and> (\<forall>j. i \<le> j \<and> j < k \<longrightarrow>
                 (\<exists>e. try_block env j = (Inl e, [Capture j]) \<and> is_GroundingError e))
          \<and> snd (retry_loop config env [i..<nat (max_retries config)] le)
              = concat (map (\<lambda>j. [Capture j, Sleep (retry_delay config * 2 ^ j)]) [i..<k])
                @ snd (try_block env k)
          \<and> ((fst (retry_loop config env [i..<nat (max_retries config)] le) = Inr ())
               = (fst (try_block env k) = Inr ()))
          \<and> (\<forall>e. fst (try_block env k) = Inl e \<and> \<not> is_GroundingError e \<longrightarrow>
                 fst (retry_loop config env [i..<nat (max_retries config)] le) = Inl e)"
  (is "\<exists>k. ?shape i le k")
  using assms
proof (induction "nat (max_retries config) - i" arbitrary: i le)
  case 0
  then show ?case by simp
next
  case (Suc d)
  let ?n = "nat (max_retries config)"
  from Suc.prems have up: "[i..<?n] = i # [Suc i..<?n]" and ik: "int i < max_retries config"
    by (simp_all add: upt_conv_Cons)
  obtain res es where tb: "try_block env i = (res, es)"
    by (cases "try_block env i") auto
  have stop: "?shape i le i" if "retry_loop config env [i..<?n] le = (out, es)"
      and "(out = Inr ()) = (res = Inr ())"
      and "\<forall>e. res = Inl e \<and> \<not> is_GroundingError e \<longrightarrow> out = Inl e" for out
    using that ik tb by auto
  show ?case
  proof (cases res)
    case (Inr u)
    then have "retry_loop config env [i..<?n] le = (Inr (), es)"
      using tb up by simp
    from stop [OF this] Inr show ?thesis by auto
  next
    case (Inl e)
    show ?thesis
    proof (cases "is_GroundingError e")
      case False
      then have "retry_loop config env [i..<?n] le = (Inl e, es)"
        using tb up Inl by simp
      from stop [OF this] Inl show ?thesis by auto
    next
      case True
      have es: "es = [Capture i]"
        using try_block_caught_events [of env i e] tb Inl True by simp
      show ?thesis
      proof (cases "i < 1024")
        case False
        then have "retry_loop config env [i..<?n] le = (Inl OverflowError, es)"
          using tb up Inl True by (simp add: backoff_wait_def)
        from stop [OF this] Inl True show ?thesis by auto
      next
        case small: True
        show ?thesis
        proof (cases "int i < max_retries config - 1")
          case False
          with Suc.prems have "[Suc i..<?n] = []" by simp
          then have "retry_loop config env [i..<?n] le = (Inl e, es)"
            using tb up Inl True small False by (simp add: backoff_wait_def)
          from stop [OF this] Inl True show ?thesis by auto
        next
          case cond: True
          show ?thesis
          proof (cases "time_sleep env (retry_delay config * 2 ^ i)")
            case (Some raised)
            then have "retry_loop config env [i..<?n] le = (Inl raised, es)"
              using tb up Inl True small cond by (simp add: backoff_wait_def)
            from stop [OF this] Inl True show ?thesis by auto
          next
            case None
            from cond have lt: "Suc i < ?n" by simp
            with Suc.hyps(2) have "d = ?n - Suc i" by simp
            from Suc.hyps(1) [OF this lt, of "Some e"]
            obtain k where k: "?shape (Suc i) (Some e) k" by blast
            have run: "retry_loop config env [i..<?n] le
                        = (fst (retry_loop config env [Suc i..<?n] (Some e)),
                           Capture i # Sleep (retry_delay config * 2 ^ i)
                           # snd (retry_loop config env [Suc i..<?n] (Some e)))"
              using tb up Inl True small cond None es
              by (simp add: backoff_wait_def split: prod.splits)
            from k have ik': "i < k" by simp
            then have upk: "[i..<k] = i # [Suc i..<k]" by (simp add: upt_conv_Cons)
            have before: "\<forall>j. i \<le> j \<and> j < k \<longrightarrow>
                 (\<exists>e. try_block env j = (Inl e, [Capture j]) \<and> is_GroundingError e)"
            proof (intro allI impI)
              fix j assume j: "i \<le> j \<and> j < k"
              show "\<exists>e. try_block env j = (Inl e, [Capture j]) \<and> is_GroundingError e"
              proof (cases "j = i")
                case True
                then show ?thesis using tb Inl es \<open>is_GroundingError e\<close> by auto
              next
                case False
                with j have "Suc i \<le> j \<and> j < k" by simp
                with k show ?thesis by blast
              qed
            qed
            have "?shape i le k"
              using k ik' before unfolding run upk by simp
            then show ?thesis ..
          qed
        qed
      qed
    qed
  qed
qed
text \<open>
  A sleep that raises ends the run inside the handler: with a negative delay, or one
  beyond the range of \<^verbatim>\<open>time.sleep\<close>, the first failed attempt is the last.
\<close>

lemma never_notepad_first_block:
  "try_block never_notepad 0
     = (Inl (GroundingError (not_found_message ''Notepad'') [''Chrome'']), [Capture 0])"
  by (rule try_block_raises) (rule never_notepad_attempts)

lemma never_notepad_range:
  "sleep_min never_notepad = - 9223372036" "sleep_max never_notepad = 9223372036"
  by (simp_all add: never_notepad_def)

lemma negative_delay_aborts:
  "acquisition_loop \<lparr> max_retries = 3, retry_delay = - 1 \<rparr> never_notepad = (Inl ValueError, [Capture 0])"
proof -
  have three: "[0..<3] = [0, Suc 0, Suc (Suc 0)]" by (simp add: upt_conv_Cons)
  show ?thesis
    by (simp add: acquisition_loop_def three never_notepad_first_block backoff_wait_def
        time_sleep_def never_notepad_range)
qed

text \<open>
  C5. With \<^verbatim>\<open>max_retries = 3\<close>, a delay that is not negative and whose double
  \<^verbatim>\<open>time.sleep\<close> accepts, and three attempts that each raise a \<^verbatim>\<open>GroundingError\<close>, the
  loop captures three times, sleeps twice (the base delay, then twice the base delay;
  no sleep follows the last attempt) and raises the error of the third attempt as it
  is. With a delay that \<^verbatim>\<open>time.sleep\<close> refuses, the first backoff raises instead and the
  run ends after one capture.
\<close>

theorem exhaustion_after_three:
  assumes "max_retries config = 3"
    and "0 \<le> retry_delay config"
    and "retry_delay config * 2 \<le> sleep_max env"
    and "\<forall>i<3. try_body env i = Inl (errs i) \<and> is_GroundingError (errs i)"
  shows "acquisition_loop config env
           = (Inl (errs 2),
              [Capture 0, Sleep (retry_delay config), Capture 1, Sleep (retry_delay config * 2),
               Capture 2])
       \<and> captures (snd (acquisition_loop config env)) = [0, 1, 2]
       \<and> sleeps (snd (acquisition_loop config env)) = [retry_delay config, retry_delay config * 2]"
proof -
  have n: "nat (max_retries config) = 3" using assms(1) by simp
  have three: "[0..<3] = [0, 1, 2]" by (simp add: upt_conv_Cons)
  from assms(4) have e0: "try_body env 0 = Inl (errs 0)" "is_GroundingError (errs 0)"
    and e1: "try_body env 1 = Inl (errs 1)" "is_GroundingError (errs 1)"
    and e2: "try_body env 2 = Inl (errs 2)" "is_GroundingError (errs 2)"
    by simp_all
  from assms(2,3) have one: "retry_delay config \<le> sleep_max env" by linarith
  have last: "retry_loop config env [2] (Some (errs 1)) = (Inl (errs 2), [Capture 2])"
    using assms(1) by (intro retry_loop_caught_last [OF e2]) simp_all
  have second: "retry_loop config env [1, 2] (Some (errs 0))
                  = (Inl (errs 2), [Capture 1, Sleep (retry_delay config * 2), Capture 2])"
    using retry_loop_caught [OF e1, of config "[2]" "Some (errs 0)"] assms(1,2,3) last
    by simp
  have first: "retry_loop config env [0, 1, 2] None
                  = (Inl (errs 2),
                     [Capture 0, Sleep (retry_delay config), Capture 1,
                      Sleep (retry_delay config * 2), Capture 2])"
    using retry_loop_caught [OF e0, of config "[1, 2]" None] assms(1,2) one second
    by simp
  have run: "acquisition_loop config env
           = (Inl (errs 2),
              [Capture 0, Sleep (retry_delay config), Capture 1, Sleep (retry_delay config * 2),
               Capture 2])"
    using first by (simp add: acquisition_loop_def n three)
  show ?thesis
    unfolding run by simp
qed

theorem exhaustion_after_three_witness:
  "max_retries \<lparr> max_retries = 3, retry_delay = 1 \<rparr> = 3
   \<and> 0 \<le> retry_delay \<lparr> max_retries = 3, retry_delay = 1 \<rparr>
   \<and> retry_delay \<lparr> max_retries = 3, retry_delay = 1 \<rparr> * 2 \<le> sleep_max never_notepad
   \<and> try_body never_notepad 0 = Inl (GroundingError (not_found_message ''Notepad'') [''Chrome''])
   \<and> try_body never_notepad 1 = Inl (GroundingError (not_found_message ''Notepad'') [''Recycle Bin''])
   \<and> try_body never_notepad 2 = Inl (GroundingError (not_found_message ''Notepad'') [''Trash''])
   \<and> acquisition_loop \<lparr> max_retries = 3, retry_delay = 1 \<rparr> never_notepad
       = (Inl (GroundingError (not_found_message ''Notepad'') [''Trash'']),
          [Capture 0, Sleep 1, Capture 1, Sleep 2, Capture 2])"
  (is "?M \<and> ?D \<and> ?L \<and> ?A0 \<and> ?A1 \<and> ?A2 \<and> ?R")
proof -
  let ?errs = "\<lambda>i::nat. GroundingError (not_found_message ''Notepad'')
                 [if i = 0 then ''Chrome'' else if i = 1 then ''Recycle Bin'' else ''Trash'']"
  have m: ?M by simp
  have d: ?D by simp
  have l: ?L by (simp add: never_notepad_def)
  have h: "\<forall>i<3. try_body never_notepad i = Inl (?errs i) \<and> is_GroundingError (?errs i)"
  proof (intro allI impI)
    fix i :: nat assume "i < 3"
    then consider "i = 0" | "i = 1" | "i = 2" by linarith
    then show "try_body never_notepad i = Inl (?errs i) \<and> is_GroundingError (?errs i)"
    proof cases
      case 1
      then show ?thesis using never_notepad_attempts(1) by simp
    next
      case 2
      then show ?thesis using never_notepad_attempts(2) by simp
    next
      case 3
      then show ?thesis using never_notepad_attempts(3) by simp
    qed
  qed
  have r: ?R
    using conjunct1 [OF exhaustion_after_three [OF m d l h]] by simp
  show ?thesis
    by (intro conjI) (rule m d l never_notepad_attempts r)+
qed

theorem exhaustion_after_three_counterexample:
  "max_retries \<lparr> max_retries = 3, retry_delay = 10 ^ 10 \<rparr> = 3
   \<and> 0 \<le> retry_delay \<lparr> max_retries = 3, retry_delay = 10 ^ 10 \<rparr>
   \<and> try_body never_notepad 0 = Inl (GroundingError (not_found_message ''Notepad'') [''Chrome''])
   \<and> try_body never_notepad 1 = Inl (GroundingError (not_found_message ''Notepad'') [''Recycle Bin''])
   \<and> try_body never_notepad 2 = Inl (GroundingError (not_found_message ''Notepad'') [''Trash''])
   \<and> acquisition_loop \<lparr> max_retries = 3, retry_delay = 10 ^ 10 \<rparr> never_notepad
       = (Inl OverflowError, [Capture 0])
   \<and> captures (snd (acquisition_loop \<lparr> max_retries = 3, retry_delay = 10 ^ 10 \<rparr> never_notepad)) = [0]
   \<and> sleeps (snd (acquisition_loop \<lparr> max_retries = 3, retry_delay = 10 ^ 10 \<rparr> never_notepad)) = []"
  (is "?M \<and> ?D \<and> ?A0 \<and> ?A1 \<and> ?A2 \<and> ?R \<and> ?K \<and> ?S")
proof -
  have m: ?M by simp
  have d: ?D by simp
  have three: "[0..<3] = [0, Suc 0, Suc (Suc 0)]" by (simp add: upt_conv_Cons)
  have r: ?R
    by (simp add: acquisition_loop_def three never_notepad_first_block backoff_wait_def
        time_sleep_def never_notepad_range)
  have k: ?K unfolding r by simp
  have s: ?S unfolding r by simp
  show ?thesis
    by (intro conjI) (rule m d never_notepad_attempts r k s)+
qed

lemma backoff_captures:
  "Capture k \<in> set (concat (map (\<lambda>j. [Capture j, Sleep (f j)]) [0..<n])) \<Longrightarrow> k < n"
  by auto

lemma no_attempt_no_event:
  "\<not> 0 < max_retries config \<Longrightarrow> snd (acquisition_loop config env) = []
     \<and> fst (acquisition_loop config env) \<noteq> Inr ()"
  by (simp add: acquisition_loop_def)





text \<open>
  C8. A failure of the capture collaborator is not a \<^verbatim>\<open>GroundingError\<close>, and the loop
  does not catch it: when a run makes attempt \<open>k\<close> and the capture of that attempt
  fails with such an exception, the exception leaves the loop right after that
  capture, with no sleep and no further attempt. Before it the run holds the captures
  and the backoff sleeps of the attempts before \<open>k\<close>.
\<close>

theorem capture_error_propagates:
  assumes "acquisition_loop config env = (outcome, evs)"
    and "Capture k \<in> set evs"
    and "capture_desktop env k = Inl e"
    and "\<not> is_GroundingError e"
  shows "outcome = Inl e
       \<and> evs = concat (map (\<lambda>i. [Capture i, Sleep (retry_delay config * 2 ^ i)]) [0..<k])
               @ [Capture k]
       \<and> captures evs = [0..<k] @ [k]
       \<and> sleeps evs = map (\<lambda>i. retry_delay config * 2 ^ i) [0..<k]"
proof -
  have tb: "try_block env k = (Inl e, [Capture k])"
    using assms(3) by (simp add: try_block_raises try_body_def)
  have pos: "0 < max_retries config"
  proof (rule ccontr)
    assume "\<not> 0 < max_retries config"
    from no_attempt_no_event [OF this, of env] assms(1,2) show False by simp
  qed
  then have "0 < nat (max_retries config)" by simp
  from retry_loop_shape [OF this, of env None] assms(1)
  obtain k' where k': "\<forall>j<k'. \<exists>e. try_block env j = (Inl e, [Capture j]) \<and> is_GroundingError e"
      "evs = concat (map (\<lambda>i. [Capture i, Sleep (retry_delay config * 2 ^ i)]) [0..<k'])
             @ snd (try_block env k')"
      "\<forall>e. fst (try_block env k') = Inl e \<and> \<not> is_GroundingError e \<longrightarrow> outcome = Inl e"
    unfolding acquisition_loop_def by auto
  from assms(2) k'(2)
  have "Capture k \<in> set (concat (map (\<lambda>i. [Capture i, Sleep (retry_delay config * 2 ^ i)]) [0..<k']))
        \<or> Capture k \<in> set (snd (try_block env k'))"
    by (simp only: set_append Un_iff)
  then have "k < k' \<or> k = k'"
    using backoff_captures [of k "\<lambda>i. retry_delay config * 2 ^ i" k']
      try_block_captures [of k env k'] by blast
  moreover have "\<not> k < k'"
  proof
    assume "k < k'"
    with k'(1) obtain e' where "try_block env k = (Inl e', [Capture k])" "is_GroundingError e'"
      by blast
    with tb assms(4) show False by simp
  qed
  ultimately have kk: "k' = k" by simp
  have out: "outcome = Inl e"
    using k'(3) tb assms(4) unfolding kk by simp
  have evs: "evs = concat (map (\<lambda>i. [Capture i, Sleep (retry_delay config * 2 ^ i)]) [0..<k])
               @ [Capture k]"
    using k'(2) tb unfolding kk by simp
  have "captures evs = [0..<k] @ [k]"
       "sleeps evs = map (\<lambda>i. retry_delay config * 2 ^ i) [0..<k]"
    unfolding evs by (simp_all add: sleeps_backoff captures_backoff)
  with out evs show ?thesis by blast
qed

lemma capture_fails_second_run:
  "acquisition_loop \<lparr> max_retries = 3, retry_delay = 1 \<rparr> capture_fails_second
     = (Inl ScreenShotError, [Capture 0, Sleep 1, Capture 1])"
proof -
  have three: "[0..<3] = [0, Suc 0, Suc (Suc 0)]" by (simp add: upt_conv_Cons)
  have range: "sleep_max capture_fails_second = 9223372036"
    by (simp add: capture_fails_second_def)
  have a0: "try_body capture_fails_second 0
              = Inl (GroundingError (not_found_message ''Notepad'') [''Chrome''])"
    by (simp add: try_body_label [where p = 0 and s = "''Chrome''"] capture_fails_second_def
        ground_located_examples)
  have a1: "try_body capture_fails_second (Suc 0) = Inl ScreenShotError"
    by (simp add: try_body_def capture_fails_second_def)
  show ?thesis
    by (simp add: acquisition_loop_def three try_block_raises [OF a0] try_block_raises [OF a1]
        backoff_wait_def time_sleep_def range)
qed

theorem capture_error_propagates_witness:
  "acquisition_loop \<lparr> max_retries = 3, retry_delay = 1 \<rparr> capture_fails_second
     = (Inl ScreenShotError, [Capture 0, Sleep 1, Capture 1])
   \<and> Capture 1 \<in> set [Capture 0, Sleep 1, Capture 1]
   \<and> capture_desktop capture_fails_second 1 = Inl ScreenShotError
   \<and> \<not> is_GroundingError ScreenShotError
   \<and> sleeps [Capture 0, Sleep 1, Capture 1] = map (\<lambda>i. 1 * 2 ^ i) [0..<1]"
  (is "?R \<and> ?K \<and> ?C \<and> ?N \<and> ?S")
proof -
  have r: ?R by (rule capture_fails_second_run)
  have k: ?K by simp
  have c: ?C by (simp add: capture_fails_second_def)
  have n: ?N by simp
  have s: ?S
    using capture_error_propagates [OF r k c n] by simp
  show ?thesis
    by (intro conjI) (rule r k c n s)+
qed

theorem capture_error_not_retried_counterexample:
  "capture_desktop capture_fails_first 0 = Inl ScreenShotError
   \<and> try_body capture_fails_first 1
       = Inr \<lparr> res_x = 125, res_y = 165, res_confidence = 4 / 5, text_found = ''Notepad'' \<rparr>
   \<and> acquisition_loop \<lparr> max_retries = 3, retry_delay = 1 \<rparr> capture_fails_first
       = (Inl ScreenShotError, [Capture 0])
   \<and> sleeps (snd (acquisition_loop \<lparr> max_retries = 3, retry_delay = 1 \<rparr> capture_fails_first)) = []
   \<and> captures (snd (acquisition_loop \<lparr> max_retries = 3, retry_delay = 1 \<rparr> capture_fails_first)) = [0]"
  (is "?C \<and> ?A1 \<and> ?R \<and> ?S \<and> ?K")
proof -
  have c: ?C by (simp add: capture_fails_first_def)
  have a1: ?A1
    by (simp add: try_body_label [where p = 1 and s = "''Notepad''"] capture_fails_first_def
        ground_located_examples)
  have three: "[0..<3] = [0, Suc 0, Suc (Suc 0)]" by (simp add: upt_conv_Cons)
  have body: "try_body capture_fails_first 0 = Inl ScreenShotError"
    using c by (simp add: try_body_def)
  have r: ?R by (simp add: acquisition_loop_def three try_block_raises [OF body])
  have s: ?S unfolding r by simp
  have k: ?K unfolding r by simp
  show ?thesis
    by (intro conjI) (rule c a1 r s k)+
qed

end
